theory Spec2Isabelle
  imports Complex_Main
begin

section \<open>Data of the calibration application\<close>

text \<open>
  The program under study is \<^verbatim>\<open>applications/calib/main.cpp\<close>: the capture loop that grabs
  synchronised images, tracks the dot-grid target in every camera and hands frames and
  observations to the \<^verbatim>\<open>Calibrator\<close>.

  Doubles are modelled as reals (rounding is not modelled), Eigen vectors as tuples and a
  Sophus \<^verbatim>\<open>SE3d\<close> as a unit quaternion with a translation. The C++ \<^verbatim>\<open>int\<close> values (frame
  counter, grid indices, handles) are \<^typ>\<open>int\<close>: the program only compares them, converts
  them and increments the frame counter, whose signed overflow after \<open>2^31\<close> grabs is
  undefined in C++ and outside the model.
\<close>

type_synonym vec2 = "real \<times> real"
type_synonym vec3 = "real \<times> real \<times> real"
type_synonym vec2i = "int \<times> int"

datatype se3 = SE3 (so3: "real \<times> real \<times> real \<times> real") (translation: vec3)

text \<open>\<^verbatim>\<open>Sophus::SO3()\<close>: the identity rotation, quaternion \<open>(x, y, z, w) = (0, 0, 0, 1)\<close>.\<close>

definition SO3_identity :: "real \<times> real \<times> real \<times> real" where
  "SO3_identity = (0, 0, 0, 1)"

text \<open>\<^verbatim>\<open>Sophus::SE3d()\<close>, the value of every element of \<^verbatim>\<open>T_hw[N]\<close> before the loop.\<close>

definition SE3_identity :: se3 where
  "SE3_identity = SE3 SO3_identity (0, 0, 0)"

text \<open>Scalar times \<^verbatim>\<open>Eigen::Vector3d\<close>.\<close>

definition scale3 :: "real \<Rightarrow> vec3 \<Rightarrow> vec3" where
  "scale3 k v = (case v of (x, y, z) \<Rightarrow> (k * x, k * y, k * z))"

text \<open>\<^verbatim>\<open>const Eigen::Vector2i grid_size(19,10)\<close>.\<close>

definition grid_size :: vec2i where
  "grid_size = (19, 10)"

text \<open>One stream of the video source: what \<^verbatim>\<open>video.Streams()[i]\<close> reports.\<close>

record stream_info =
  Width :: nat
  Height :: nat
  channels :: nat

record camera_model =
  cam_width :: int
  cam_height :: int
  cam_index :: nat
  cam_params :: "real list"

record observation =
  obs_frame :: int
  obs_camera :: int
  P_c :: vec3
  p_c :: vec2

section \<open>The Calibrator\<close>

text \<open>
  Modelled from the spec: \<^verbatim>\<open>calibu/calib/Calibrator.h\<close> is not among the sources, so the
  accumulator follows section 4.1 of the specification: it owns the registered cameras,
  the committed frames (one pose each) and the append-only observations, and an enabled
  flag decides whether new frames and observations are accepted.
\<close>

record calibrator =
  enabled :: bool
  cameras :: "camera_model list"
  frames :: "se3 list"
  observations :: "observation list"

text \<open>
  Modelled from the spec: a fresh accumulator holds nothing. The specification does not
  say whether it accepts frames before \<open>Start\<close>, so the initial flag is a parameter.
\<close>

definition Calibrator :: "bool \<Rightarrow> calibrator" where
  "Calibrator accepting = \<lparr>enabled = accepting, cameras = [], frames = [], observations = []\<rparr>"

definition NumCameras :: "calibrator \<Rightarrow> nat" where
  "NumCameras cal = length (cameras cal)"

definition NumFrames :: "calibrator \<Rightarrow> nat" where
  "NumFrames cal = length (frames cal)"

text \<open>
  Modelled from the spec: \<open>AddCamera\<close> registers the model and returns its index; indices
  are dense and follow registration order.
\<close>

definition AddCamera :: "camera_model \<Rightarrow> calibrator \<Rightarrow> int \<times> calibrator" where
  "AddCamera cam cal = (int (length (cameras cal)), cal\<lparr>cameras := cameras cal @ [cam]\<rparr>)"

text \<open>
  Modelled from the spec: \<open>AddFrame\<close> creates a frame with the given seed pose and returns
  its handle; while the accumulator is stopped it is a no-op. The specification names no
  handle for the no-op; the model returns \<open>-1\<close>, the value \<^verbatim>\<open>main\<close> itself uses for
  "no frame on this tick".
\<close>

definition AddFrame :: "se3 \<Rightarrow> calibrator \<Rightarrow> int \<times> calibrator" where
  "AddFrame T cal =
     (if enabled cal then (int (length (frames cal)), cal\<lparr>frames := frames cal @ [T]\<rparr>)
      else (- 1, cal))"

text \<open>
  Modelled from the spec: \<open>GetFrame\<close> returns a mutable reference to the stored pose.
  \<open>GetFrame\<close> reads it and \<open>GetFrame_assign\<close> is the assignment through the reference.
  \<^verbatim>\<open>main\<close> only uses a handle that \<open>AddFrame\<close> has just returned.
\<close>

definition GetFrame :: "calibrator \<Rightarrow> int \<Rightarrow> se3" where
  "GetFrame cal h = frames cal ! nat h"

definition GetFrame_assign :: "int \<Rightarrow> se3 \<Rightarrow> calibrator \<Rightarrow> calibrator" where
  "GetFrame_assign h T cal = cal\<lparr>frames := (frames cal)[nat h := T]\<rparr>"

text \<open>
  Modelled from the spec: \<open>AddObservation\<close> appends an observation; it is a no-op while
  stopped or when a handle is unknown.
\<close>

definition AddObservation :: "int \<Rightarrow> int \<Rightarrow> vec3 \<Rightarrow> vec2 \<Rightarrow> calibrator \<Rightarrow> calibrator" where
  "AddObservation f c P p cal =
     (if enabled cal \<and> 0 \<le> f \<and> f < int (NumFrames cal) \<and> 0 \<le> c \<and> c < int (NumCameras cal)
      then cal\<lparr>observations := observations cal @
                 [\<lparr>obs_frame = f, obs_camera = c, P_c = P, p_c = p\<rparr>]\<rparr>
      else cal)"

text \<open>
  Modelled from the spec: \<open>Start\<close> sets the enabled flag; \<open>Stop\<close> clears it and triggers the
  final pass of the Global Optimizer, an external collaborator that refines the stored
  poses in place. Its outcome for the pose of frame \<open>k\<close> is the parameter \<open>refine k\<close>.
\<close>

definition Start :: "calibrator \<Rightarrow> calibrator" where
  "Start cal = cal\<lparr>enabled := True\<rparr>"

definition Stop :: "(nat \<Rightarrow> se3 \<Rightarrow> se3) \<Rightarrow> calibrator \<Rightarrow> calibrator" where
  "Stop refine cal =
     cal\<lparr>enabled := False,
         frames := map (\<lambda>k. refine k (frames cal ! k)) [0..<length (frames cal)]\<rparr>"

section \<open>One iteration of the main event loop\<close>

text \<open>
  What the external pipeline (image processing, conic finder, \<^verbatim>\<open>target.FindTarget\<close>,
  \<^verbatim>\<open>PosePnPRansac\<close>) yields for one camera's image: the tracking flag, the detected blobs
  and the pose written to \<^verbatim>\<open>T_hw[iI]\<close>.

  Modelled from the spec: the Target Matcher (\<^verbatim>\<open>TargetGridDot\<close>, not among the sources)
  returns a per-blob grid-index assignment, so \<^verbatim>\<open>conics[p].center\<close> and
  \<^verbatim>\<open>target.Map()[p].pg\<close> are the two fields of the \<open>p\<close>-th blob.
\<close>

record blob =
  center :: vec2
  pg :: vec2i

record detection =
  tracking :: bool
  blobs :: "blob list"
  pose :: se3

datatype ui_event =
    Key_LeftBracket
  | Key_RightBracket "nat \<Rightarrow> se3 \<Rightarrow> se3"
  | Key_Right
  | Key_Space
  | Key_r
  | Toggle_Play
  | Toggle_AddFrames

text \<open>
  The environment of one loop iteration: the result of \<^verbatim>\<open>video.Grab\<close> (consulted only when
  the iteration grabs), the pipeline's result for every camera, and the key presses and
  panel clicks that \<^verbatim>\<open>pangolin::FinishFrame\<close> dispatches at the end of the iteration.
\<close>

record tick_input =
  grab :: bool
  detections :: "nat \<Rightarrow> detection"
  events :: "ui_event list"

text \<open>The values fixed before the loop starts.\<close>

record settings =
  grid_spacing :: real
  N :: nat
  calib_cams :: "nat \<Rightarrow> int"

text \<open>The variables the loop reads and writes; the arrays of size \<open>N\<close> are indexed maps.\<close>

record state =
  frame :: int
  run :: bool
  add :: bool
  step :: bool
  calibrator :: calibrator
  tracking_good :: "nat \<Rightarrow> bool"
  T_hw :: "nat \<Rightarrow> se3"

text \<open>\<^verbatim>\<open>pangolin::Pushed\<close>: reads a button and releases it.\<close>

definition Pushed :: "bool \<Rightarrow> bool \<times> bool" where
  "Pushed button = (button, False)"

text \<open>
  \<^verbatim>\<open>const bool go = (frame==0) || run || pangolin::Pushed(step);\<close> with the short-circuit:
  the button is only read, and released, when the first two disjuncts are false.
\<close>

definition compute_go :: "state \<Rightarrow> bool \<times> state" where
  "compute_go s =
     (if frame s = 0 \<or> run s then (True, s)
      else (case Pushed (step s) of (val, button) \<Rightarrow> (val, s\<lparr>step := button\<rparr>)))"

text \<open>The placeholder pose passed to \<open>AddFrame\<close>: identity rotation, translation \<open>(0, 0, 1000)\<close>.\<close>

definition placeholder_pose :: se3 where
  "placeholder_pose = SE3 SO3_identity (0, 0, 1000)"

text \<open>Lines 218 to 225: the grab and the creation of the frame.\<close>

definition grab_frame :: "tick_input \<Rightarrow> bool \<Rightarrow> state \<Rightarrow> int \<times> state" where
  "grab_frame inp go s =
     (if go then
        (if grab inp then
           (case (if add s then AddFrame placeholder_pose (calibrator s)
                  else (- 1, calibrator s)) of
              (calib_frame, cal) \<Rightarrow> (calib_frame, s\<lparr>calibrator := cal, frame := frame s + 1\<rparr>))
         else (- 1, s\<lparr>run := False\<rparr>))
      else (- 1, s))"

text \<open>The bounds test of line 266.\<close>

definition in_grid :: "vec2i \<Rightarrow> bool" where
  "in_grid g \<longleftrightarrow> 0 \<le> fst g \<and> fst g < fst grid_size \<and> 0 \<le> snd g \<and> snd g < snd grid_size"

text \<open>Line 268: \<^verbatim>\<open>grid_spacing * Eigen::Vector3d(pg(0), pg(1), 0)\<close>.\<close>

definition pg3d :: "real \<Rightarrow> vec2i \<Rightarrow> vec3" where
  "pg3d spacing g = scale3 spacing (of_int (fst g), of_int (snd g), 0)"

text \<open>Lines 262 to 271: the loop over the blobs of one camera.\<close>

fun add_observations :: "real \<Rightarrow> int \<Rightarrow> int \<Rightarrow> blob list \<Rightarrow> calibrator \<Rightarrow> calibrator" where
  "add_observations spacing calib_frame cam [] cal = cal"
| "add_observations spacing calib_frame cam (b # bs) cal =
     (if in_grid (pg b)
      then add_observations spacing calib_frame cam bs
             (AddObservation calib_frame cam (pg3d spacing (pg b)) (center b) cal)
      else add_observations spacing calib_frame cam bs cal)"

text \<open>Lines 231 to 273: the body of the loop over the cameras, for camera \<open>iI\<close>.\<close>

definition process_camera :: "settings \<Rightarrow> int \<Rightarrow> nat \<Rightarrow> detection \<Rightarrow> state \<Rightarrow> state" where
  "process_camera cfg calib_frame iI det s =
     (let s1 = s\<lparr>tracking_good := (tracking_good s)(iI := tracking det)\<rparr> in
      if tracking_good s1 iI then
        (let s2 = s1\<lparr>T_hw := (T_hw s1)(iI := pose det)\<rparr> in
         if calib_frame \<ge> 0 then
           (let s3 = (if iI = 0 \<or> \<not> tracking_good s2 0
                      then s2\<lparr>calibrator :=
                                GetFrame_assign calib_frame (T_hw s2 iI) (calibrator s2)\<rparr>
                      else s2)
            in s3\<lparr>calibrator :=
                    add_observations (grid_spacing cfg) calib_frame (calib_cams cfg iI)
                      (blobs det) (calibrator s3)\<rparr>)
         else s2)
      else s1)"

text \<open>The loop \<^verbatim>\<open>for(size_t iI = 0; iI < N; ++iI)\<close>, run for the first \<open>n\<close> cameras.\<close>

definition camera_loop :: "settings \<Rightarrow> int \<Rightarrow> (nat \<Rightarrow> detection) \<Rightarrow> nat \<Rightarrow> state \<Rightarrow> state" where
  "camera_loop cfg calib_frame dets n s =
     fold (\<lambda>iI. process_camera cfg calib_frame iI (dets iI)) [0..<n] s"

text \<open>
  The loop body up to the call of \<^verbatim>\<open>pangolin::FinishFrame\<close>.

  The vector \<^verbatim>\<open>images\<close> that line 231 indexes is filled by \<^verbatim>\<open>video.Grab\<close>, which belongs to
  the video library and not to this program; the model takes what the pipeline makes
  of the current images as an input of the iteration. Before the first successful grab
  nothing has filled the vector, and what line 231 reads then is left to the video
  library: the pausing after a failed grab is therefore stated for a non-zero frame
  counter, and the first iteration for a successful grab.
\<close>

definition tick :: "settings \<Rightarrow> tick_input \<Rightarrow> state \<Rightarrow> state" where
  "tick cfg inp s =
     (case compute_go s of (go, s0) \<Rightarrow>
        (case grab_frame inp go s0 of (calib_frame, s1) \<Rightarrow>
           camera_loop cfg calib_frame (detections inp) (N cfg) s1))"

text \<open>The callbacks registered in lines 201 to 208 and the two panel toggles.\<close>

fun handle_event :: "ui_event \<Rightarrow> state \<Rightarrow> state" where
  "handle_event Key_LeftBracket s = s\<lparr>calibrator := Start (calibrator s)\<rparr>"
| "handle_event (Key_RightBracket refine) s = s\<lparr>calibrator := Stop refine (calibrator s)\<rparr>"
| "handle_event Key_Right s = s\<lparr>step := True\<rparr>"
| "handle_event Key_Space s = s\<lparr>run := \<not> run s\<rparr>"
| "handle_event Key_r s = s"
| "handle_event Toggle_Play s = s\<lparr>run := \<not> run s\<rparr>"
| "handle_event Toggle_AddFrames s = s\<lparr>add := \<not> add s\<rparr>"

definition FinishFrame :: "ui_event list \<Rightarrow> state \<Rightarrow> state" where
  "FinishFrame evs s = fold handle_event evs s"

definition iteration :: "settings \<Rightarrow> tick_input \<Rightarrow> state \<Rightarrow> state" where
  "iteration cfg inp s = FinishFrame (events inp) (tick cfg inp s)"

text \<open>
  The loop runs until \<^verbatim>\<open>pangolin::ShouldQuit\<close>; a run is the list of the environments of its
  iterations.
\<close>

primrec main_loop :: "settings \<Rightarrow> tick_input list \<Rightarrow> state \<Rightarrow> state" where
  "main_loop cfg [] s = s"
| "main_loop cfg (inp # inps) s = main_loop cfg inps (iteration cfg inp s)"

section \<open>Start-up\<close>

datatype error = Usage | Undefined_behaviour | VideoException

text \<open>
  \<open>argc\<close> and, for \<open>argc \<ge> 3\<close>, the value that \<^verbatim>\<open>iss >> grid_spacing\<close> leaves in the variable.
\<close>

record cmdline =
  argc :: nat
  arg_spacing :: real

text \<open>Lines 92 to 96: the first stream that is not single-channel raises.\<close>

fun check_greyscale :: "stream_info list \<Rightarrow> error + unit" where
  "check_greyscale [] = Inr ()"
| "check_greyscale (st # sts) =
     (if channels st \<noteq> 1 then Inl VideoException else check_greyscale sts)"

text \<open>
  The conversion of a \<^verbatim>\<open>size_t\<close> to \<^verbatim>\<open>int\<close> in lines 129 and 130: the value wraps into the
  32-bit two's complement range.
\<close>

definition narrow_int :: "nat \<Rightarrow> int" where
  "narrow_int n = (int n + 2 ^ 31) mod 2 ^ 32 - 2 ^ 31"

text \<open>Lines 128 to 135: one default camera per stream; the handles fill \<^verbatim>\<open>calib_cams\<close>.\<close>

fun register_cameras :: "stream_info list \<Rightarrow> nat \<Rightarrow> calibrator \<Rightarrow> int list \<times> calibrator" where
  "register_cameras [] i cal = ([], cal)"
| "register_cameras (st # sts) i cal =
     (let w_i = narrow_int (Width st); h_i = narrow_int (Height st);
          default_cam = \<lparr>cam_width = w_i, cam_height = h_i, cam_index = i,
                         cam_params = [300, 300, real_of_int w_i / 2, real_of_int h_i / 2, 0.2]\<rparr>
      in case AddCamera default_cam cal of (h, cal1) \<Rightarrow>
           (case register_cameras sts (Suc i) cal1 of (hs, cal2) \<Rightarrow> (h # hs, cal2)))"

text \<open>
  The loop variables before the first iteration: \<open>frame = 0\<close>, \<open>run\<close> off, \<open>add\<close> on, \<open>step\<close>
  off; \<open>tracking_good\<close> is an uninitialised array, \<open>T_hw\<close> is default-constructed.
\<close>

definition initial_state :: "calibrator \<Rightarrow> (nat \<Rightarrow> bool) \<Rightarrow> state" where
  "initial_state cal garbage =
     \<lparr>frame = 0, run = False, add = True, step = False, calibrator = cal,
      tracking_good = garbage, T_hw = (\<lambda>_. SE3_identity)\<rparr>"

definition make_setup :: "cmdline \<Rightarrow> stream_info list \<Rightarrow> int list \<Rightarrow> settings" where
  "make_setup args streams handles =
     \<lparr>grid_spacing = (if argc args \<ge> 3 then arg_spacing args else 0.254 / (19 - 1)),
      N = length streams,
      calib_cams = (\<lambda>i. handles ! i)\<rparr>"

text \<open>
  The program: usage error, stream set-up, greyscale check, camera registration, event
  loop, and the final \<open>Stop\<close>. Reading \<^verbatim>\<open>video.Streams()[0]\<close> of a source without streams is
  undefined behaviour.
\<close>

definition main ::
  "cmdline \<Rightarrow> stream_info list \<Rightarrow> bool \<Rightarrow> (nat \<Rightarrow> bool) \<Rightarrow> tick_input list \<Rightarrow>
   (nat \<Rightarrow> se3 \<Rightarrow> se3) \<Rightarrow> error + state" where
  "main args streams accepting garbage inputs final_refine =
     (if argc args < 2 then Inl Usage
      else if streams = [] then Inl Undefined_behaviour
      else (case check_greyscale streams of
              Inl e \<Rightarrow> Inl e
            | Inr _ \<Rightarrow>
               (case register_cameras streams 0 (Calibrator accepting) of
                  (handles, cal) \<Rightarrow>
                    (let s = main_loop (make_setup args streams handles) inputs
                               (initial_state cal garbage)
                     in Inr (s\<lparr>calibrator := Stop final_refine (calibrator s)\<rparr>)))))"

section \<open>Notions used to state the properties\<close>

text \<open>An iteration grabs when the frame counter is zero, playback is on or a step is pending.\<close>

definition goes :: "state \<Rightarrow> bool" where
  "goes s \<longleftrightarrow> frame s = 0 \<or> run s \<or> step s"

text \<open>
  An iteration commits when it grabs successfully while the commit toggle is on and the
  accumulator accepts frames.
\<close>

definition commits :: "tick_input \<Rightarrow> state \<Rightarrow> bool" where
  "commits inp s \<longleftrightarrow> goes s \<and> grab inp \<and> add s \<and> enabled (calibrator s)"

text \<open>Whether the accumulator takes an observation for the given handles.\<close>

definition takes :: "calibrator \<Rightarrow> int \<Rightarrow> int \<Rightarrow> bool" where
  "takes cal f c \<longleftrightarrow>
     enabled cal \<and> 0 \<le> f \<and> f < int (length (frames cal)) \<and> 0 \<le> c \<and> c < int (length (cameras cal))"

text \<open>The observation built from a blob in lines 263 to 269.\<close>

definition blob_observation :: "real \<Rightarrow> int \<Rightarrow> int \<Rightarrow> blob \<Rightarrow> observation" where
  "blob_observation spacing f c b =
     \<lparr>obs_frame = f, obs_camera = c, P_c = pg3d spacing (pg b), p_c = center b\<rparr>"

text \<open>The observations of a list of blobs: one for each blob inside the grid, in order.\<close>

definition blob_observations :: "real \<Rightarrow> int \<Rightarrow> int \<Rightarrow> blob list \<Rightarrow> observation list" where
  "blob_observations spacing f c bs =
     map (blob_observation spacing f c) (filter (\<lambda>b. in_grid (pg b)) bs)"

text \<open>What camera \<open>iI\<close> contributes to frame \<open>f\<close> on a tick.\<close>

definition camera_observations ::
  "settings \<Rightarrow> calibrator \<Rightarrow> int \<Rightarrow> (nat \<Rightarrow> detection) \<Rightarrow> nat \<Rightarrow> observation list" where
  "camera_observations cfg cal f dets iI =
     (if tracking (dets iI) \<and> takes cal f (calib_cams cfg iI)
      then blob_observations (grid_spacing cfg) f (calib_cams cfg iI) (blobs (dets iI))
      else [])"

text \<open>The guard of line 257, once \<^verbatim>\<open>tracking_good[0]\<close> holds this tick's flag of camera 0.\<close>

definition seeds :: "(nat \<Rightarrow> detection) \<Rightarrow> nat \<Rightarrow> bool" where
  "seeds dets iI \<longleftrightarrow> tracking (dets iI) \<and> (iI = 0 \<or> \<not> tracking (dets 0))"

text \<open>The pose a frame created with pose \<open>T\<close> holds after the first \<open>n\<close> cameras.\<close>

fun seeded_pose :: "(nat \<Rightarrow> detection) \<Rightarrow> nat \<Rightarrow> se3 \<Rightarrow> se3" where
  "seeded_pose dets 0 T = T"
| "seeded_pose dets (Suc n) T = (if seeds dets n then pose (dets n) else seeded_pose dets n T)"

text \<open>
  The first camera in registration order, among the first \<open>n\<close>, whose tracking succeeded:
  the seeder named by the specification.
\<close>

fun first_tracking :: "(nat \<Rightarrow> detection) \<Rightarrow> nat \<Rightarrow> nat option" where
  "first_tracking dets 0 = None"
| "first_tracking dets (Suc n) =
     (case first_tracking dets n of
        Some k \<Rightarrow> Some k
      | None \<Rightarrow> (if tracking (dets n) then Some n else None))"

text \<open>The accumulator after the first \<open>n\<close> cameras of a tick whose frame handle is \<open>f\<close>.\<close>

definition loop_calibrator ::
  "settings \<Rightarrow> int \<Rightarrow> (nat \<Rightarrow> detection) \<Rightarrow> nat \<Rightarrow> calibrator \<Rightarrow> calibrator" where
  "loop_calibrator cfg f dets n cal =
     (if 0 \<le> f
      then cal\<lparr>frames := (frames cal)[nat f := seeded_pose dets n (frames cal ! nat f)],
               observations := observations cal @
                 concat (map (camera_observations cfg cal f dets) [0..<n])\<rparr>
      else cal)"

text \<open>A run all of whose iterations commit: the commit signal is on at every tick.\<close>

fun committed_run :: "settings \<Rightarrow> tick_input list \<Rightarrow> state \<Rightarrow> bool" where
  "committed_run cfg [] s = True"
| "committed_run cfg (inp # inps) s =
     (commits inp s \<and> committed_run cfg inps (iteration cfg inp s))"

text \<open>What a finished or aborted run has accumulated.\<close>

definition frames_of_run :: "error + state \<Rightarrow> se3 list" where
  "frames_of_run r = (case r of Inl e \<Rightarrow> [] | Inr s \<Rightarrow> frames (calibrator s))"

definition observations_of_run :: "error + state \<Rightarrow> observation list" where
  "observations_of_run r = (case r of Inl e \<Rightarrow> [] | Inr s \<Rightarrow> observations (calibrator s))"

section \<open>Concrete rigs and inputs\<close>

text \<open>A rig of \<open>n\<close> registered cameras with the default grid spacing, before the first iteration.\<close>

definition example_cfg :: "nat \<Rightarrow> settings" where
  "example_cfg n = \<lparr>grid_spacing = 0.254 / 18, N = n, calib_cams = int\<rparr>"

definition example_camera :: "nat \<Rightarrow> camera_model" where
  "example_camera i =
     \<lparr>cam_width = 640, cam_height = 480, cam_index = i, cam_params = [300, 300, 320, 240, 0.2]\<rparr>"

definition example_start :: "nat \<Rightarrow> state" where
  "example_start n =
     initial_state
       \<lparr>enabled = True, cameras = map example_camera [0..<n], frames = [], observations = []\<rparr>
       (\<lambda>i. False)"

text \<open>A fully visible 3 by 3 corner of the grid.\<close>

definition grid_blobs_3x3 :: "blob list" where
  "grid_blobs_3x3 =
     map (\<lambda>g. \<lparr>center = (100 + 20 * real_of_int (fst g), 100 + 20 * real_of_int (snd g)), pg = g\<rparr>)
       [(0, 0), (1, 0), (2, 0), (0, 1), (1, 1), (2, 1), (0, 2), (1, 2), (2, 2)]"

definition tracked :: "se3 \<Rightarrow> blob list \<Rightarrow> detection" where
  "tracked T bs = \<lparr>tracking = True, blobs = bs, pose = T\<rparr>"

text \<open>A camera that sees blobs but does not find the target.\<close>

definition lost :: detection where
  "lost = \<lparr>tracking = False, blobs = grid_blobs_3x3, pose = SE3_identity\<rparr>"

definition pose_A :: se3 where
  "pose_A = SE3 SO3_identity (0, 0, 1)"

definition pose_B :: se3 where
  "pose_B = SE3 SO3_identity (1, 0, 2)"

text \<open>A successful grab on which no camera finds the target.\<close>

definition no_tracking_input :: tick_input where
  "no_tracking_input = \<lparr>grab = True, detections = (\<lambda>i. lost), events = []\<rparr>"

text \<open>A successful grab of three cameras: camera 0 loses the target, cameras 1 and 2 track.\<close>

definition three_camera_input :: tick_input where
  "three_camera_input =
     \<lparr>grab = True,
      detections = (\<lambda>i. if i = 0 then lost
                        else if i = 1 then tracked pose_A grid_blobs_3x3
                        else tracked pose_B grid_blobs_3x3),
      events = []\<rparr>"



text \<open>Successful grabs of two cameras on which only camera 0, or only camera 1, tracks.\<close>

definition camera_A_only_input :: tick_input where
  "camera_A_only_input =
     \<lparr>grab = True,
      detections = (\<lambda>i. if i = 0 then tracked pose_A grid_blobs_3x3 else lost),
      events = []\<rparr>"

definition camera_B_only_input :: tick_input where
  "camera_B_only_input =
     \<lparr>grab = True,
      detections = (\<lambda>i. if i = 1 then tracked pose_B grid_blobs_3x3 else lost),
      events = []\<rparr>"

text \<open>A blob matched to the grid index \<open>(19, 0)\<close>, one column beyond the grid.\<close>

definition stray_blob :: blob where
  "stray_blob = \<lparr>center = (500, 100), pg = (19, 0)\<rparr>"

text \<open>A successful grab on which every camera tracks the 3 by 3 corner with pose \<open>T\<close>.\<close>

definition tracking_input :: "se3 \<Rightarrow> ui_event list \<Rightarrow> tick_input" where
  "tracking_input T evs =
     \<lparr>grab = True, detections = (\<lambda>i. tracked T grid_blobs_3x3), events = evs\<rparr>"


text \<open>Five grabs; the user starts playback with the space bar during the first iteration.\<close>

definition five_ticks :: "tick_input list" where
  "five_ticks =
     [tracking_input pose_A [Key_Space], tracking_input pose_B [], tracking_input pose_A [],
      tracking_input pose_B [], tracking_input pose_A []]"



section \<open>The loop in closed form\<close>


lemma in_grid_bounds:
  "in_grid g \<longleftrightarrow> 0 \<le> fst g \<and> fst g < 19 \<and> 0 \<le> snd g \<and> snd g < 10"
  by (simp add: in_grid_def grid_size_def)

lemma add_observations_eq:
  "add_observations gs f c bs cal =
     cal\<lparr>observations := observations cal @
           (if takes cal f c then blob_observations gs f c bs else [])\<rparr>"
proof (induction bs arbitrary: cal)
  case Nil
  show ?case by (simp add: blob_observations_def)
next
  case (Cons b bs)
  show ?case
    by (simp add: Cons.IH AddObservation_def takes_def blob_observations_def
        blob_observation_def NumFrames_def NumCameras_def)
qed

lemma camera_loop_Suc:
  "camera_loop cfg cf dets (Suc n) s =
     process_camera cfg cf n (dets n) (camera_loop cfg cf dets n s)"
  by (simp add: camera_loop_def)

lemma camera_loop_0: "camera_loop cfg cf dets 0 s = s"
  by (simp add: camera_loop_def)

lemma camera_loop_eq:
  "camera_loop cfg cf dets n s =
     s\<lparr>tracking_good := (\<lambda>i. if i < n then tracking (dets i) else tracking_good s i),
       T_hw := (\<lambda>i. if i < n \<and> tracking (dets i) then pose (dets i) else T_hw s i),
       calibrator := loop_calibrator cfg cf dets n (calibrator s)\<rparr>"
proof (induction n)
  case 0
  show ?case by (simp add: camera_loop_0 loop_calibrator_def)
next
  case (Suc n)
  show ?case
    apply (subst camera_loop_Suc)
    apply (subst Suc.IH)
    apply (auto simp: process_camera_def Let_def add_observations_eq GetFrame_assign_def
        loop_calibrator_def camera_observations_def seeds_def takes_def fun_eq_iff less_Suc_eq)
    done
qed

lemma compute_go_eq:
  "compute_go s = (goes s, s\<lparr>step := (if frame s = 0 \<or> run s then step s else False)\<rparr>)"
  by (simp add: compute_go_def goes_def Pushed_def)

lemma grab_frame_eq:
  "grab_frame inp go s =
     (if go \<and> grab inp \<and> add s \<and> enabled (calibrator s)
      then (int (length (frames (calibrator s))),
            s\<lparr>calibrator := (calibrator s)\<lparr>frames := frames (calibrator s) @ [placeholder_pose]\<rparr>,
              frame := frame s + 1\<rparr>)
      else (- 1, s\<lparr>frame := (if go \<and> grab inp then frame s + 1 else frame s),
                   run := (if go \<and> \<not> grab inp then False else run s)\<rparr>))"
  by (simp add: grab_frame_def AddFrame_def)

lemma tick_calibrator:
  "calibrator (tick cfg inp s) =
     (if commits inp s
      then (calibrator s)
             \<lparr>frames := frames (calibrator s) @
                [seeded_pose (detections inp) (N cfg) placeholder_pose],
              observations := observations (calibrator s) @
                concat (map (camera_observations cfg
                               ((calibrator s)\<lparr>frames := frames (calibrator s) @ [placeholder_pose]\<rparr>)
                               (int (length (frames (calibrator s)))) (detections inp))
                          [0..<N cfg])\<rparr>
      else calibrator s)"
  by (simp add: tick_def compute_go_eq grab_frame_eq camera_loop_eq loop_calibrator_def
      commits_def)

lemma tick_frame:
  "frame (tick cfg inp s) = (if goes s \<and> grab inp then frame s + 1 else frame s)"
  by (simp add: tick_def compute_go_eq grab_frame_eq camera_loop_eq)

lemma tick_run:
  "run (tick cfg inp s) = (if goes s \<and> \<not> grab inp then False else run s)"
  by (simp add: tick_def compute_go_eq grab_frame_eq camera_loop_eq)

lemma tick_add: "add (tick cfg inp s) = add s"
  by (simp add: tick_def compute_go_eq grab_frame_eq camera_loop_eq)

lemma tick_step:
  "step (tick cfg inp s) = (if frame s = 0 \<or> run s then step s else False)"
  by (simp add: tick_def compute_go_eq grab_frame_eq camera_loop_eq)


lemma tick_T_hw:
  "T_hw (tick cfg inp s) =
     (\<lambda>i. if i < N cfg \<and> tracking (detections inp i) then pose (detections inp i)
          else T_hw s i)"
  by (simp add: tick_def compute_go_eq grab_frame_eq camera_loop_eq fun_eq_iff)


subsection \<open>User events\<close>

lemma handle_event_observations:
  "observations (calibrator (handle_event e s)) = observations (calibrator s)"
  by (cases e) (simp_all add: Start_def Stop_def)

lemma handle_event_cameras:
  "cameras (calibrator (handle_event e s)) = cameras (calibrator s)"
  by (cases e) (simp_all add: Start_def Stop_def)

lemma handle_event_NumFrames:
  "length (frames (calibrator (handle_event e s))) = length (frames (calibrator s))"
  by (cases e) (simp_all add: Start_def Stop_def)


lemma FinishFrame_observations:
  "observations (calibrator (FinishFrame evs s)) = observations (calibrator s)"
  unfolding FinishFrame_def
  by (induction evs arbitrary: s) (simp_all add: handle_event_observations)

lemma FinishFrame_cameras:
  "cameras (calibrator (FinishFrame evs s)) = cameras (calibrator s)"
  unfolding FinishFrame_def
  by (induction evs arbitrary: s) (simp_all add: handle_event_cameras)

lemma FinishFrame_NumFrames:
  "length (frames (calibrator (FinishFrame evs s))) = length (frames (calibrator s))"
  unfolding FinishFrame_def
  by (induction evs arbitrary: s) (simp_all add: handle_event_NumFrames)


subsection \<open>Whole iterations and runs\<close>

lemma tick_NumFrames:
  "length (frames (calibrator (tick cfg inp s))) =
     length (frames (calibrator s)) + (if commits inp s then 1 else 0)"
  by (simp add: tick_calibrator)

lemma tick_cameras: "cameras (calibrator (tick cfg inp s)) = cameras (calibrator s)"
  by (simp add: tick_calibrator)

lemma iteration_NumFrames:
  "length (frames (calibrator (iteration cfg inp s))) =
     length (frames (calibrator s)) + (if commits inp s then 1 else 0)"
  by (simp add: iteration_def FinishFrame_NumFrames tick_NumFrames)

lemma iteration_observations:
  "observations (calibrator (iteration cfg inp s)) = observations (calibrator (tick cfg inp s))"
  by (simp add: iteration_def FinishFrame_observations)

lemma iteration_cameras:
  "cameras (calibrator (iteration cfg inp s)) = cameras (calibrator s)"
  by (simp add: iteration_def FinishFrame_cameras tick_cameras)

lemma main_loop_append:
  "main_loop cfg (xs @ ys) s = main_loop cfg ys (main_loop cfg xs s)"
  by (induction xs arbitrary: s) simp_all

lemma main_loop_cameras:
  "cameras (calibrator (main_loop cfg inps s)) = cameras (calibrator s)"
  by (induction inps arbitrary: s) (simp_all add: iteration_cameras)

lemma main_loop_NumFrames_lower:
  "length (frames (calibrator s)) \<le> length (frames (calibrator (main_loop cfg inps s)))"
proof (induction inps arbitrary: s)
  case Nil
  show ?case by simp
next
  case (Cons inp inps)
  have "length (frames (calibrator s)) \<le> length (frames (calibrator (iteration cfg inp s)))"
    by (simp add: iteration_NumFrames)
  also have "\<dots> \<le> length (frames (calibrator (main_loop cfg inps (iteration cfg inp s))))"
    by (rule Cons.IH)
  finally show ?case by simp
qed

lemma main_loop_NumFrames_upper:
  "length (frames (calibrator (main_loop cfg inps s))) \<le>
     length (frames (calibrator s)) + length inps"
proof (induction inps arbitrary: s)
  case Nil
  show ?case by simp
next
  case (Cons inp inps)
  have "length (frames (calibrator (main_loop cfg inps (iteration cfg inp s)))) \<le>
          length (frames (calibrator (iteration cfg inp s))) + length inps"
    by (rule Cons.IH)
  also have "\<dots> \<le> length (frames (calibrator s)) + 1 + length inps"
    by (simp add: iteration_NumFrames)
  finally show ?case by simp
qed

subsection \<open>Start-up\<close>

lemma check_greyscale_ok:
  "check_greyscale streams = Inr () \<longleftrightarrow> (\<forall>st \<in> set streams. channels st = 1)"
  by (induction streams) simp_all

lemma check_greyscale_fails:
  "st \<in> set streams \<Longrightarrow> channels st \<noteq> 1 \<Longrightarrow> check_greyscale streams = Inl VideoException"
  by (induction streams) auto

lemma register_cameras_keeps:
  "register_cameras streams i cal = (hs, cal') \<Longrightarrow>
     enabled cal' = enabled cal \<and> frames cal' = frames cal \<and> observations cal' = observations cal"
proof (induction streams arbitrary: i cal hs cal')
  case Nil
  then show ?case by simp
next
  case (Cons st sts)
  then show ?case
    by (auto simp: Let_def AddCamera_def split: prod.splits)
qed


section \<open>Properties of the capture loop\<close>

text \<open>
  C4: across every run, \<open>NumFrames()\<close> never decreases from one iteration to the next and
  grows by at most one per iteration; a tick keeps every frame it found, with its pose, so
  frames are never deleted. The state \<open>s\<close> and the prefix \<open>pre\<close> are arbitrary, so the
  statement covers every point of every run.
\<close>

theorem NumFrames_monotone:
  "NumFrames (calibrator (main_loop cfg pre s)) \<le>
     NumFrames (calibrator (main_loop cfg (pre @ [inp]) s)) \<and>
   NumFrames (calibrator (main_loop cfg (pre @ [inp]) s)) \<le>
     NumFrames (calibrator (main_loop cfg pre s)) + 1 \<and>
   take (NumFrames (calibrator (main_loop cfg pre s)))
     (frames (calibrator (tick cfg inp (main_loop cfg pre s)))) =
     frames (calibrator (main_loop cfg pre s)) \<and>
   NumFrames (calibrator s) \<le> NumFrames (calibrator (main_loop cfg inps s)) \<and>
   NumFrames (calibrator (main_loop cfg inps s)) \<le> NumFrames (calibrator s) + length inps"
proof -
  let ?s = "main_loop cfg pre s"
  have step: "main_loop cfg (pre @ [inp]) s = iteration cfg inp ?s"
    by (simp add: main_loop_append)
  have "NumFrames (calibrator ?s) \<le> NumFrames (calibrator (iteration cfg inp ?s))"
    by (simp add: NumFrames_def iteration_NumFrames)
  moreover have "NumFrames (calibrator (iteration cfg inp ?s)) \<le> NumFrames (calibrator ?s) + 1"
    by (simp add: NumFrames_def iteration_NumFrames)
  moreover have "take (NumFrames (calibrator ?s)) (frames (calibrator (tick cfg inp ?s))) =
      frames (calibrator ?s)"
    by (simp add: NumFrames_def tick_calibrator)
  moreover have "NumFrames (calibrator s) \<le> NumFrames (calibrator (main_loop cfg inps s))"
    by (simp add: NumFrames_def main_loop_NumFrames_lower)
  moreover have "NumFrames (calibrator (main_loop cfg inps s)) \<le>
      NumFrames (calibrator s) + length inps"
    by (simp add: NumFrames_def main_loop_NumFrames_upper)
  ultimately show ?thesis
    by (simp only: step) 
qed

text \<open>Two iterations of a one-camera rig: the first commits a frame, the second one too at most.\<close>

theorem NumFrames_monotone_witness:
  "NumFrames (calibrator (main_loop (example_cfg 1)
      [\<lparr>grab = True, detections = (\<lambda>i. tracked pose_A grid_blobs_3x3), events = []\<rparr>]
      (example_start 1))) = 1 \<and>
   NumFrames (calibrator (main_loop (example_cfg 1)
      ([\<lparr>grab = True, detections = (\<lambda>i. tracked pose_A grid_blobs_3x3), events = []\<rparr>] @
       [\<lparr>grab = True, detections = (\<lambda>i. lost), events = []\<rparr>])
      (example_start 1))) \<le> 1 + 1"
  using NumFrames_monotone [of "example_cfg 1"
      "[\<lparr>grab = True, detections = (\<lambda>i. tracked pose_A grid_blobs_3x3), events = []\<rparr>]"
      "example_start 1" "\<lparr>grab = True, detections = (\<lambda>i. lost), events = []\<rparr>" "[]"]
  by (simp add: NumFrames_def iteration_NumFrames commits_def goes_def example_start_def
      initial_state_def)

subsection \<open>The program as a whole\<close>


lemma Stop_observations: "observations (Stop refine cal) = observations cal"
  by (simp add: Stop_def)

lemma main_started:
  assumes "2 \<le> argc args" and "streams \<noteq> []" and "\<forall>st \<in> set streams. channels st = 1"
  shows "\<exists>handles cal.
           register_cameras streams 0 (Calibrator accepting) = (handles, cal) \<and>
           enabled cal = accepting \<and> frames cal = [] \<and> observations cal = [] \<and>
           main args streams accepting garbage inputs final_refine =
             Inr ((main_loop (make_setup args streams handles) inputs (initial_state cal garbage))
                    \<lparr>calibrator := Stop final_refine
                       (calibrator (main_loop (make_setup args streams handles) inputs
                                      (initial_state cal garbage)))\<rparr>)"
proof -
  obtain handles cal where reg: "register_cameras streams 0 (Calibrator accepting) = (handles, cal)"
    by (cases "register_cameras streams 0 (Calibrator accepting)") auto
  have grey: "check_greyscale streams = Inr ()"
    using assms(3) by (simp add: check_greyscale_ok)
  have keeps: "enabled cal = accepting \<and> frames cal = [] \<and> observations cal = []"
    using register_cameras_keeps [OF reg] by (simp add: Calibrator_def)
  have "main args streams accepting garbage inputs final_refine =
          Inr ((main_loop (make_setup args streams handles) inputs (initial_state cal garbage))
                 \<lparr>calibrator := Stop final_refine
                    (calibrator (main_loop (make_setup args streams handles) inputs
                                   (initial_state cal garbage)))\<rparr>)"
    using assms(1,2) by (simp add: main_def grey reg Let_def)
  with reg keeps show ?thesis by blast
qed




text \<open>
  C7: if some stream of the video source is not single-channel, \<open>main\<close> ends with the
  \<open>VideoException\<close> raised by the start-up check, whatever the iterations would have
  brought: the main loop is never entered and the run accumulates no frame and no
  observation.
\<close>

theorem non_greyscale_stream_rejected:
  assumes "2 \<le> argc args" and "st \<in> set streams" and "channels st \<noteq> 1"
  shows "main args streams accepting garbage inputs final_refine = Inl VideoException \<and>
         frames_of_run (main args streams accepting garbage inputs final_refine) = [] \<and>
         observations_of_run (main args streams accepting garbage inputs final_refine) = []"
proof -
  have "streams \<noteq> []"
    using assms(2) by auto
  moreover have "check_greyscale streams = Inl VideoException"
    using assms(2,3) by (rule check_greyscale_fails)
  ultimately have "main args streams accepting garbage inputs final_refine = Inl VideoException"
    using assms(1) by (simp add: main_def)
  then show ?thesis
    by (simp add: frames_of_run_def observations_of_run_def)
qed

text \<open>A grey stream followed by an RGB stream.\<close>

theorem non_greyscale_stream_rejected_witness:
  "2 \<le> argc \<lparr>argc = 2, arg_spacing = 0\<rparr> \<and>
   \<lparr>Width = 640, Height = 480, channels = 3\<rparr> \<in>
     set [\<lparr>Width = 640, Height = 480, channels = 1\<rparr>, \<lparr>Width = 640, Height = 480, channels = 3\<rparr>] \<and>
   channels \<lparr>Width = 640, Height = 480, channels = 3\<rparr> \<noteq> 1 \<and>
   main \<lparr>argc = 2, arg_spacing = 0\<rparr>
     [\<lparr>Width = 640, Height = 480, channels = 1\<rparr>, \<lparr>Width = 640, Height = 480, channels = 3\<rparr>]
     True (\<lambda>i. False)
     [\<lparr>grab = True, detections = (\<lambda>i. tracked pose_A grid_blobs_3x3), events = []\<rparr>]
     (\<lambda>k T. T) = Inl VideoException"
proof -
  have a: "2 \<le> argc \<lparr>argc = 2, arg_spacing = 0\<rparr>"
    by simp
  have b: "\<lparr>Width = 640, Height = 480, channels = 3\<rparr> \<in>
     set [\<lparr>Width = 640, Height = 480, channels = 1\<rparr>, \<lparr>Width = 640, Height = 480, channels = 3\<rparr>]"
    by simp
  have c: "channels \<lparr>Width = 640, Height = 480, channels = 3\<rparr> \<noteq> 1"
    by simp
  show ?thesis
    using a b c non_greyscale_stream_rejected [OF a b c] by blast
qed





subsection \<open>Creation and seeding of a frame\<close>

lemma seeded_pose_none:
  "(\<And>i. i < n \<Longrightarrow> \<not> tracking (dets i)) \<Longrightarrow> seeded_pose dets n T = T"
  by (induction n) (simp_all add: seeds_def)

lemma camera_observations_none:
  "(\<And>i. i < n \<Longrightarrow> \<not> tracking (dets i)) \<Longrightarrow>
     concat (map (camera_observations cfg cal f dets) [0..<n]) = []"
  by (induction n) (simp_all add: camera_observations_def)

text \<open>
  C2, as the code has it: a tick creates a frame exactly when it commits, that is when it
  grabs successfully while the commit toggle is on and the accumulator accepts frames;
  \<open>AddFrame\<close> is called right after the grab, before any camera is processed. Tracking
  plays no part: if every camera fails, the committed tick still appends a frame, which
  keeps the placeholder pose, and nothing else in the accumulator changes.
\<close>

theorem frame_created_on_commit:
  "NumFrames (calibrator (tick cfg inp s)) =
     NumFrames (calibrator s) + (if commits inp s then 1 else 0) \<and>
   (commits inp s \<and> (\<forall>i < N cfg. \<not> tracking (detections inp i)) \<longrightarrow>
      calibrator (tick cfg inp s) =
        (calibrator s)\<lparr>frames := frames (calibrator s) @ [placeholder_pose]\<rparr>)"
proof -
  have "NumFrames (calibrator (tick cfg inp s)) =
          NumFrames (calibrator s) + (if commits inp s then 1 else 0)"
    by (simp add: NumFrames_def tick_NumFrames)
  moreover have "calibrator (tick cfg inp s) =
        (calibrator s)\<lparr>frames := frames (calibrator s) @ [placeholder_pose]\<rparr>"
    if "commits inp s" and "\<forall>i < N cfg. \<not> tracking (detections inp i)"
    using that by (simp add: tick_calibrator seeded_pose_none camera_observations_none)
  ultimately show ?thesis by blast
qed

text \<open>Two cameras, none of which finds the target on the first grab.\<close>

theorem frame_created_on_commit_witness:
  "commits no_tracking_input (example_start 2) \<and>
   N (example_cfg 2) = 2 \<and>
   \<not> tracking (detections no_tracking_input 0) \<and>
   \<not> tracking (detections no_tracking_input 1) \<and>
   frames (calibrator (tick (example_cfg 2) no_tracking_input (example_start 2))) =
     [placeholder_pose] \<and>
   observations (calibrator (tick (example_cfg 2) no_tracking_input (example_start 2))) = []"
proof -
  have a: "commits no_tracking_input (example_start 2)"
    by (simp add: commits_def goes_def no_tracking_input_def example_start_def initial_state_def)
  have b: "\<forall>i < N (example_cfg 2). \<not> tracking (detections no_tracking_input i)"
    by (simp add: no_tracking_input_def lost_def)
  have c: "N (example_cfg 2) = 2" "\<not> tracking (detections no_tracking_input 0)"
    "\<not> tracking (detections no_tracking_input 1)"
    by (simp_all add: example_cfg_def no_tracking_input_def lost_def)
  show ?thesis
    using a b c frame_created_on_commit [of "example_cfg 2" no_tracking_input "example_start 2"]
    by (simp add: example_start_def initial_state_def)
qed

text \<open>
  C2 as stated fails: the only camera loses the target on a committed tick, and the
  accumulator has a frame afterwards.
\<close>

theorem frame_without_tracking_counterexample:
  "N (example_cfg 1) = 1 \<and>
   \<not> tracking (detections no_tracking_input 0) \<and>
   NumFrames (calibrator (example_start 1)) = 0 \<and>
   NumFrames (calibrator (tick (example_cfg 1) no_tracking_input (example_start 1))) = 1"
  by (simp add: NumFrames_def tick_NumFrames commits_def goes_def no_tracking_input_def
      lost_def example_cfg_def example_start_def initial_state_def)

lemma first_tracking_Some:
  "first_tracking dets n = Some k \<Longrightarrow>
     k < n \<and> tracking (dets k) \<and> (\<forall>i < k. \<not> tracking (dets i))"
proof (induction n)
  case 0
  then show ?case by simp
next
  case (Suc n)
  show ?case
  proof (cases "first_tracking dets n")
    case None
    have "\<forall>i < n. \<not> tracking (dets i)"
      using None
    proof (induction n)
      case 0
      then show ?case by simp
    next
      case (Suc m)
      then show ?case
        by (auto simp: less_Suc_eq split: option.splits if_splits)
    qed
    with Suc.prems None show ?thesis
      by (auto split: if_splits)
  next
    case (Some j)
    with Suc show ?thesis
      by (auto simp: less_Suc_eq)
  qed
qed

lemma seeded_pose_first:
  assumes "first_tracking dets m = Some k"
    and "k = 0 \<or> (\<forall>j. k < j \<and> j < m \<longrightarrow> \<not> tracking (dets j))"
  shows "n \<le> m \<Longrightarrow> seeded_pose dets n T = (if n \<le> k then T else pose (dets k))"
proof (induction n)
  case 0
  show ?case by simp
next
  case (Suc n)
  have k: "k < m" "tracking (dets k)" "\<forall>i < k. \<not> tracking (dets i)"
    using first_tracking_Some [OF assms(1)] by auto
  have IH: "seeded_pose dets n T = (if n \<le> k then T else pose (dets k))"
    using Suc by simp
  consider "n < k" | "n = k" | "k < n" by linarith
  then show ?case
  proof cases
    case 1
    then show ?thesis using k(3) IH by (simp add: seeds_def)
  next
    case 2
    then show ?thesis using k(2,3) by (auto simp: seeds_def)
  next
    case 3
    have "\<not> seeds dets n"
      using 3 assms(2) k(2) Suc.prems by (auto simp: seeds_def)
    then show ?thesis using 3 IH by simp
  qed
qed

text \<open>
  C1, as the code has it: on a committed tick whose first tracking camera \<open>k\<close> is camera 0,
  or on which no camera after \<open>k\<close> tracks (with one or two cameras, every tick on which
  some camera tracks), the frame created on the tick ends with the pose of camera \<open>k\<close>.
  Looking at the loop camera by camera, the frame holds the placeholder pose until camera
  \<open>k\<close> has been processed and the pose of camera \<open>k\<close> ever after: the pose is seeded once,
  by the first tracking camera, and later cameras do not touch it.
\<close>

theorem pose_seeded_once:
  assumes "commits inp s"
    and "first_tracking (detections inp) (N cfg) = Some k"
    and "k = 0 \<or> (\<forall>j. k < j \<and> j < N cfg \<longrightarrow> \<not> tracking (detections inp j))"
  shows "frames (calibrator (tick cfg inp s)) =
           frames (calibrator s) @ [pose (detections inp k)] \<and>
         (\<forall>n \<le> N cfg.
            frames (calibrator
              (camera_loop cfg
                 (fst (grab_frame inp (fst (compute_go s)) (snd (compute_go s))))
                 (detections inp) n
                 (snd (grab_frame inp (fst (compute_go s)) (snd (compute_go s)))))) =
            frames (calibrator s) @
              [if n \<le> k then placeholder_pose else pose (detections inp k)])"
proof -
  have k: "k < N cfg"
    using first_tracking_Some [OF assms(2)] by simp
  have sp: "\<And>n. n \<le> N cfg \<Longrightarrow> seeded_pose (detections inp) n placeholder_pose =
      (if n \<le> k then placeholder_pose else pose (detections inp k))"
    by (rule seeded_pose_first [OF assms(2,3)])
  have "frames (calibrator (tick cfg inp s)) =
           frames (calibrator s) @ [pose (detections inp k)]"
    using assms(1) k by (simp add: tick_calibrator sp)
  moreover have "frames (calibrator
              (camera_loop cfg
                 (fst (grab_frame inp (fst (compute_go s)) (snd (compute_go s))))
                 (detections inp) n
                 (snd (grab_frame inp (fst (compute_go s)) (snd (compute_go s)))))) =
            frames (calibrator s) @
              [if n \<le> k then placeholder_pose else pose (detections inp k)]"
    if "n \<le> N cfg" for n
    using assms(1) that
    by (simp add: compute_go_eq grab_frame_eq camera_loop_eq loop_calibrator_def commits_def sp)
  ultimately show ?thesis by blast
qed

text \<open>
  C1 as stated fails with three cameras: camera 0 loses the target, so the guard of line
  257 lets cameras 1 and 2 both write the pose, and the frame ends with the pose of camera
  2 although camera 1 is the first tracking camera.
\<close>

theorem pose_seed_counterexample:
  "commits three_camera_input (example_start 3) \<and>
   first_tracking (detections three_camera_input) (N (example_cfg 3)) = Some 1 \<and>
   pose (detections three_camera_input 1) = pose_A \<and>
   frames (calibrator (tick (example_cfg 3) three_camera_input (example_start 3))) = [pose_B] \<and>
   pose_A \<noteq> pose_B"
  by (simp add: tick_calibrator commits_def goes_def three_camera_input_def seeds_def
      lost_def tracked_def example_cfg_def example_start_def initial_state_def
      pose_A_def pose_B_def eval_nat_numeral)

text \<open>Two cameras, of which only camera 1 tracks: the frame takes the pose of camera 1.\<close>

theorem pose_seeded_once_witness:
  "commits camera_B_only_input (example_start 2) \<and>
   first_tracking (detections camera_B_only_input) (N (example_cfg 2)) = Some 1 \<and>
   frames (calibrator (tick (example_cfg 2) camera_B_only_input (example_start 2))) = [pose_B]"
proof -
  have a: "commits camera_B_only_input (example_start 2)"
    by (simp add: commits_def goes_def camera_B_only_input_def example_start_def
        initial_state_def)
  have b: "first_tracking (detections camera_B_only_input) (N (example_cfg 2)) = Some 1"
    by (simp add: camera_B_only_input_def example_cfg_def lost_def tracked_def eval_nat_numeral)
  have c: "1 = (0::nat) \<or>
      (\<forall>j. 1 < j \<and> j < N (example_cfg 2) \<longrightarrow> \<not> tracking (detections camera_B_only_input j))"
    by (auto simp: example_cfg_def)
  show ?thesis
    using a b pose_seeded_once [OF a b c]
    by (simp add: camera_B_only_input_def tracked_def example_start_def initial_state_def)
qed

subsection \<open>Observations\<close>

lemma tick_observations_added:
  "\<exists>added. observations (calibrator (tick cfg inp s)) = observations (calibrator s) @ added \<and>
     (\<forall>ob \<in> set added. \<exists>iI < N cfg. \<exists>b \<in> set (blobs (detections inp iI)).
        in_grid (pg b) \<and>
        ob = blob_observation (grid_spacing cfg) (int (length (frames (calibrator s))))
               (calib_cams cfg iI) b)"
proof (cases "commits inp s")
  case False
  then have "observations (calibrator (tick cfg inp s)) = observations (calibrator s) @ []"
    by (simp add: tick_calibrator)
  then show ?thesis by fastforce
next
  case True
  let ?cal = "(calibrator s)\<lparr>frames := frames (calibrator s) @ [placeholder_pose]\<rparr>"
  let ?f = "int (length (frames (calibrator s)))"
  let ?added = "concat (map (camera_observations cfg ?cal ?f (detections inp)) [0..<N cfg])"
  have "observations (calibrator (tick cfg inp s)) = observations (calibrator s) @ ?added"
    using True by (simp add: tick_calibrator)
  moreover have "\<exists>iI < N cfg. \<exists>b \<in> set (blobs (detections inp iI)).
        in_grid (pg b) \<and> ob = blob_observation (grid_spacing cfg) ?f (calib_cams cfg iI) b"
    if "ob \<in> set ?added" for ob
  proof -
    from that obtain iI where i: "iI < N cfg"
      and ob: "ob \<in> set (camera_observations cfg ?cal ?f (detections inp) iI)"
      by auto
    from ob have "ob \<in> set (blob_observations (grid_spacing cfg) ?f (calib_cams cfg iI)
                              (blobs (detections inp iI)))"
      by (simp add: camera_observations_def split: if_splits)
    then obtain b where "b \<in> set (blobs (detections inp iI))" "in_grid (pg b)"
      "ob = blob_observation (grid_spacing cfg) ?f (calib_cams cfg iI) b"
      by (auto simp: blob_observations_def)
    with i show ?thesis by blast
  qed
  ultimately show ?thesis by blast
qed

text \<open>
  C3: every observation that a tick adds comes from a blob of one of the cameras whose
  matched grid index \<open>(gx, gy)\<close> satisfies \<open>0 \<le> gx < 19\<close> and \<open>0 \<le> gy < 10\<close>. The loop over
  the blobs of a camera appends exactly the observations of the blobs inside the grid, in
  order, and skips the others; a blob matched to \<open>(19, 0)\<close> produces no observation.
\<close>

theorem observations_within_grid:
  "(\<exists>added. observations (calibrator (tick cfg inp s)) = observations (calibrator s) @ added \<and>
      (\<forall>ob \<in> set added. \<exists>iI < N cfg. \<exists>b \<in> set (blobs (detections inp iI)).
         0 \<le> fst (pg b) \<and> fst (pg b) < 19 \<and> 0 \<le> snd (pg b) \<and> snd (pg b) < 10 \<and>
         ob = blob_observation (grid_spacing cfg) (int (NumFrames (calibrator s)))
                (calib_cams cfg iI) b)) \<and>
   observations (add_observations spacing f c bs cal) =
     observations cal @
       (if takes cal f c
        then map (blob_observation spacing f c)
               (filter (\<lambda>b. 0 \<le> fst (pg b) \<and> fst (pg b) < 19 \<and> 0 \<le> snd (pg b) \<and> snd (pg b) < 10)
                  bs)
        else []) \<and>
   (pg b0 = (19, 0) \<longrightarrow> add_observations spacing f c [b0] cal = cal)"
proof -
  have "\<exists>added. observations (calibrator (tick cfg inp s)) = observations (calibrator s) @ added \<and>
      (\<forall>ob \<in> set added. \<exists>iI < N cfg. \<exists>b \<in> set (blobs (detections inp iI)).
         0 \<le> fst (pg b) \<and> fst (pg b) < 19 \<and> 0 \<le> snd (pg b) \<and> snd (pg b) < 10 \<and>
         ob = blob_observation (grid_spacing cfg) (int (NumFrames (calibrator s)))
                (calib_cams cfg iI) b)"
    using tick_observations_added [of cfg inp s]
    by (simp only: in_grid_bounds NumFrames_def conj_assoc)
  moreover have "observations (add_observations spacing f c bs cal) =
     observations cal @
       (if takes cal f c
        then map (blob_observation spacing f c)
               (filter (\<lambda>b. 0 \<le> fst (pg b) \<and> fst (pg b) < 19 \<and> 0 \<le> snd (pg b) \<and> snd (pg b) < 10)
                  bs)
        else [])"
    by (simp add: add_observations_eq blob_observations_def in_grid_bounds)
  moreover have "pg b0 = (19, 0) \<longrightarrow> add_observations spacing f c [b0] cal = cal"
    by (simp add: in_grid_bounds)
  ultimately show ?thesis by blast
qed

text \<open>
  The stray blob alone leaves the accumulator as it was; together with the nine blobs of
  the 3 by 3 corner it yields nine observations.
\<close>

theorem observations_within_grid_witness:
  "pg stray_blob = (19, 0) \<and>
   add_observations (grid_spacing (example_cfg 1)) 0 0 [stray_blob]
     ((calibrator (example_start 1))\<lparr>frames := [placeholder_pose]\<rparr>) =
     (calibrator (example_start 1))\<lparr>frames := [placeholder_pose]\<rparr> \<and>
   takes ((calibrator (example_start 1))\<lparr>frames := [placeholder_pose]\<rparr>) 0 0 \<and>
   length (observations (add_observations (grid_spacing (example_cfg 1)) 0 0
     (stray_blob # grid_blobs_3x3)
     ((calibrator (example_start 1))\<lparr>frames := [placeholder_pose]\<rparr>))) = 9"
proof -
  have a: "pg stray_blob = (19, 0)"
    by (simp add: stray_blob_def)
  have t: "takes ((calibrator (example_start 1))\<lparr>frames := [placeholder_pose]\<rparr>) 0 0"
    by (simp add: takes_def example_start_def initial_state_def)
  show ?thesis
    using a t
      observations_within_grid [of "example_cfg 1" no_tracking_input "example_start 1"
        "grid_spacing (example_cfg 1)" 0 0 "stray_blob # grid_blobs_3x3"
        "(calibrator (example_start 1))\<lparr>frames := [placeholder_pose]\<rparr>" stray_blob]
      observations_within_grid [of "example_cfg 1" no_tracking_input "example_start 1"
        "grid_spacing (example_cfg 1)" 0 0 "[stray_blob]"
        "(calibrator (example_start 1))\<lparr>frames := [placeholder_pose]\<rparr>" stray_blob]
    by (simp add: stray_blob_def grid_blobs_3x3_def example_start_def initial_state_def)
qed

lemma main_loop_observations_invariant:
  assumes "\<And>f c b. in_grid (pg b) \<Longrightarrow> Q (blob_observation (grid_spacing cfg) f c b)"
  shows "\<forall>ob \<in> set (observations (calibrator s)). Q ob \<Longrightarrow>
         \<forall>ob \<in> set (observations (calibrator (main_loop cfg inps s))). Q ob"
proof (induction inps arbitrary: s)
  case Nil
  then show ?case by simp
next
  case (Cons inp inps)
  obtain added where
    eq: "observations (calibrator (tick cfg inp s)) = observations (calibrator s) @ added" and
    src: "\<forall>ob \<in> set added. \<exists>iI < N cfg. \<exists>b \<in> set (blobs (detections inp iI)).
            in_grid (pg b) \<and>
            ob = blob_observation (grid_spacing cfg) (int (length (frames (calibrator s))))
                   (calib_cams cfg iI) b"
    using tick_observations_added [of cfg inp s] by blast
  have "\<forall>ob \<in> set added. Q ob"
  proof
    fix ob
    assume "ob \<in> set added"
    with src obtain iI b where "in_grid (pg b)"
      "ob = blob_observation (grid_spacing cfg) (int (length (frames (calibrator s))))
              (calib_cams cfg iI) b"
      by blast
    then show "Q ob"
      by (simp add: assms)
  qed
  with Cons.prems eq
  have "\<forall>ob \<in> set (observations (calibrator (iteration cfg inp s))). Q ob"
    by (auto simp: iteration_observations)
  then show ?case
    using Cons.IH by simp
qed

lemma main_Inr:
  assumes "main args streams accepting garbage inputs final_refine = Inr s'"
  shows "\<exists>handles cal. observations cal = [] \<and> frames cal = [] \<and>
           s' = (main_loop (make_setup args streams handles) inputs (initial_state cal garbage))
                  \<lparr>calibrator := Stop final_refine
                     (calibrator (main_loop (make_setup args streams handles) inputs
                                    (initial_state cal garbage)))\<rparr>"
proof -
  have a: "2 \<le> argc args" and b: "streams \<noteq> []"
    using assms by (auto simp: main_def split: if_splits)
  have "check_greyscale streams = Inr ()"
    using assms a b by (auto simp: main_def split: sum.splits)
  then have c: "\<forall>st \<in> set streams. channels st = 1"
    by (simp add: check_greyscale_ok)
  show ?thesis
    using main_started [OF a b c, of accepting garbage inputs final_refine] assms
    by auto
qed

lemma pg3d_eq:
  "pg3d spacing g = (spacing * of_int (fst g), spacing * of_int (snd g), 0)"
  by (simp add: pg3d_def scale3_def)

text \<open>
  C10: every observation added on a tick stores, next to the centre of its blob, the 3D
  point \<open>(grid_spacing * gx, grid_spacing * gy, 0)\<close> of the blob's matched grid index
  \<open>(gx, gy)\<close>; a blob inside the grid handed to an accepting accumulator adds exactly this
  observation. Hence every observation a run of \<open>main\<close> has accumulated is the grid spacing
  of that run times an integer grid point, with third coordinate 0: it lies in the target
  plane \<open>z = 0\<close>.
\<close>

theorem observation_points_on_target_plane:
  "(\<exists>added. observations (calibrator (tick cfg inp s)) = observations (calibrator s) @ added \<and>
      (\<forall>ob \<in> set added. \<exists>iI < N cfg. \<exists>b \<in> set (blobs (detections inp iI)).
         p_c ob = center b \<and>
         P_c ob = (grid_spacing cfg * real_of_int (fst (pg b)),
                   grid_spacing cfg * real_of_int (snd (pg b)), 0))) \<and>
   (pg b0 = (gx, gy) \<and> 0 \<le> gx \<and> gx < 19 \<and> 0 \<le> gy \<and> gy < 10 \<and>
    enabled cal \<and> 0 \<le> f \<and> f < int (NumFrames cal) \<and> 0 \<le> c \<and> c < int (NumCameras cal) \<longrightarrow>
      observations (add_observations spacing f c [b0] cal) =
        observations cal @
          [\<lparr>obs_frame = f, obs_camera = c,
            P_c = (spacing * real_of_int gx, spacing * real_of_int gy, 0),
            p_c = center b0\<rparr>]) \<and>
   (main args streams accepting garbage inputs final_refine = Inr s' \<longrightarrow>
      (\<forall>ob \<in> set (observations (calibrator s')).
         \<exists>gx gy. 0 \<le> gx \<and> gx < 19 \<and> 0 \<le> gy \<and> gy < 10 \<and>
           P_c ob =
             ((if 3 \<le> argc args then arg_spacing args else 0.254 / (19 - 1)) * real_of_int gx,
              (if 3 \<le> argc args then arg_spacing args else 0.254 / (19 - 1)) * real_of_int gy,
              0)))"
proof -
  have A: "\<exists>added. observations (calibrator (tick cfg inp s)) = observations (calibrator s) @ added \<and>
      (\<forall>ob \<in> set added. \<exists>iI < N cfg. \<exists>b \<in> set (blobs (detections inp iI)).
         p_c ob = center b \<and>
         P_c ob = (grid_spacing cfg * real_of_int (fst (pg b)),
                   grid_spacing cfg * real_of_int (snd (pg b)), 0))"
  proof -
    obtain added where
      eq: "observations (calibrator (tick cfg inp s)) = observations (calibrator s) @ added" and
      src: "\<forall>ob \<in> set added. \<exists>iI < N cfg. \<exists>b \<in> set (blobs (detections inp iI)).
              in_grid (pg b) \<and>
              ob = blob_observation (grid_spacing cfg) (int (length (frames (calibrator s))))
                     (calib_cams cfg iI) b"
      using tick_observations_added [of cfg inp s] by blast
    have "\<exists>iI < N cfg. \<exists>b \<in> set (blobs (detections inp iI)).
         p_c ob = center b \<and>
         P_c ob = (grid_spacing cfg * real_of_int (fst (pg b)),
                   grid_spacing cfg * real_of_int (snd (pg b)), 0)" if "ob \<in> set added" for ob
    proof -
      from src that obtain iI b where ib: "iI < N cfg" "b \<in> set (blobs (detections inp iI))"
        and ob: "ob = blob_observation (grid_spacing cfg) (int (length (frames (calibrator s))))
                     (calib_cams cfg iI) b"
        by blast
      have "p_c ob = center b"
        by (simp add: ob blob_observation_def)
      moreover have "P_c ob = (grid_spacing cfg * real_of_int (fst (pg b)),
                   grid_spacing cfg * real_of_int (snd (pg b)), 0)"
        by (simp add: ob blob_observation_def pg3d_eq)
      ultimately show ?thesis using ib by blast
    qed
    with eq show ?thesis by blast
  qed
  have B: "observations (add_observations spacing f c [b0] cal) =
        observations cal @
          [\<lparr>obs_frame = f, obs_camera = c,
            P_c = (spacing * real_of_int gx, spacing * real_of_int gy, 0),
            p_c = center b0\<rparr>]"
    if "pg b0 = (gx, gy)" "0 \<le> gx" "gx < 19" "0 \<le> gy" "gy < 10"
      "enabled cal" "0 \<le> f" "f < int (NumFrames cal)" "0 \<le> c" "c < int (NumCameras cal)"
    using that
    by (simp add: in_grid_bounds AddObservation_def pg3d_eq)
  have C: "\<forall>ob \<in> set (observations (calibrator s')).
         \<exists>gx gy. 0 \<le> gx \<and> gx < 19 \<and> 0 \<le> gy \<and> gy < 10 \<and>
           P_c ob =
             ((if 3 \<le> argc args then arg_spacing args else 0.254 / (19 - 1)) * real_of_int gx,
              (if 3 \<le> argc args then arg_spacing args else 0.254 / (19 - 1)) * real_of_int gy,
              0)"
    if m: "main args streams accepting garbage inputs final_refine = Inr s'"
  proof -
    obtain handles cal0 where cal0: "observations cal0 = []" and
      s': "s' = (main_loop (make_setup args streams handles) inputs (initial_state cal0 garbage))
                  \<lparr>calibrator := Stop final_refine
                     (calibrator (main_loop (make_setup args streams handles) inputs
                                    (initial_state cal0 garbage)))\<rparr>"
      using main_Inr [OF m] by blast
    let ?cfg = "make_setup args streams handles"
    let ?sp = "if 3 \<le> argc args then arg_spacing args else 0.254 / (19 - 1)"
    let ?Q = "\<lambda>ob. \<exists>gx gy. 0 \<le> gx \<and> gx < 19 \<and> 0 \<le> gy \<and> gy < 10 \<and>
           P_c ob = (?sp * real_of_int gx, ?sp * real_of_int gy, 0)"
    have gs: "grid_spacing ?cfg = ?sp"
      by (simp add: make_setup_def)
    have Q: "?Q (blob_observation (grid_spacing ?cfg) f c b)" if "in_grid (pg b)" for f c b
    proof -
      have "P_c (blob_observation (grid_spacing ?cfg) f c b) =
              (?sp * real_of_int (fst (pg b)), ?sp * real_of_int (snd (pg b)), 0)"
        unfolding gs by (simp add: blob_observation_def pg3d_eq)
      moreover have "0 \<le> fst (pg b) \<and> fst (pg b) < 19 \<and> 0 \<le> snd (pg b) \<and> snd (pg b) < 10"
        using that by (simp add: in_grid_bounds)
      ultimately show ?thesis by blast
    qed
    have init: "\<forall>ob \<in> set (observations (calibrator (initial_state cal0 garbage))). ?Q ob"
      by (simp add: initial_state_def cal0)
    have "\<forall>ob \<in> set (observations (calibrator
              (main_loop ?cfg inputs (initial_state cal0 garbage)))). ?Q ob"
      by (rule main_loop_observations_invariant [where Q = ?Q, OF Q init])
    then show ?thesis
      by (simp add: s' Stop_observations)
  qed
  from A B C show ?thesis by blast
qed

text \<open>
  One camera tracking the 3 by 3 corner on the first grab with the default spacing
  \<open>0.254 / 18 = 127 / 9000\<close>: the nine stored points.
\<close>

theorem observation_points_on_target_plane_witness:
  "map P_c (observations (calibrator
      (tick (example_cfg 1) (tracking_input pose_A []) (example_start 1)))) =
     [(0, 0, 0), (127 / 9000, 0, 0), (127 / 4500, 0, 0),
      (0, 127 / 9000, 0), (127 / 9000, 127 / 9000, 0), (127 / 4500, 127 / 9000, 0),
      (0, 127 / 4500, 0), (127 / 9000, 127 / 4500, 0), (127 / 4500, 127 / 4500, 0)] \<and>
   list_all (\<lambda>ob. snd (snd (P_c ob)) = 0)
     (observations (calibrator
        (tick (example_cfg 1) (tracking_input pose_A []) (example_start 1))))"
proof -
  let ?t = "tick (example_cfg 1) (tracking_input pose_A []) (example_start 1)"
  have c: "commits (tracking_input pose_A []) (example_start 1)"
    by (simp add: commits_def goes_def tracking_input_def example_start_def initial_state_def)
  have e: "observations (calibrator (example_start 1)) = []"
    by (simp add: example_start_def initial_state_def)
  have m: "map P_c (observations (calibrator ?t)) =
     [(0, 0, 0), (127 / 9000, 0, 0), (127 / 4500, 0, 0),
      (0, 127 / 9000, 0), (127 / 9000, 127 / 9000, 0), (127 / 4500, 127 / 9000, 0),
      (0, 127 / 4500, 0), (127 / 9000, 127 / 4500, 0), (127 / 4500, 127 / 4500, 0)]"
    using c
    by (simp add: tick_calibrator camera_observations_def takes_def blob_observations_def
        blob_observation_def pg3d_eq
        in_grid_bounds tracking_input_def tracked_def grid_blobs_3x3_def example_cfg_def
        example_start_def initial_state_def)
  obtain added where
    eq: "observations (calibrator ?t) = observations (calibrator (example_start 1)) @ added" and
    src: "\<forall>ob \<in> set added. \<exists>iI < N (example_cfg 1).
            \<exists>b \<in> set (blobs (detections (tracking_input pose_A []) iI)).
         p_c ob = center b \<and>
         P_c ob = (grid_spacing (example_cfg 1) * real_of_int (fst (pg b)),
                   grid_spacing (example_cfg 1) * real_of_int (snd (pg b)), 0)"
    using observation_points_on_target_plane [of "example_cfg 1" "tracking_input pose_A []"
        "example_start 1"]
    by blast
  have "list_all (\<lambda>ob. snd (snd (P_c ob)) = 0) (observations (calibrator ?t))"
    unfolding eq e list_all_iff using src by fastforce
  with m show ?thesis by blast
qed

subsection \<open>A camera that loses the target\<close>

lemma camera_observations_handles:
  "ob \<in> set (camera_observations cfg cal f dets i) \<Longrightarrow>
     obs_camera ob = calib_cams cfg i \<and> obs_frame ob = f"
  by (auto simp: camera_observations_def blob_observations_def blob_observation_def
      split: if_splits)

lemma filter_camera_observations:
  assumes "inj_on (calib_cams cfg) {..<m}" and "j < m"
  shows "n \<le> m \<Longrightarrow>
         filter (\<lambda>ob. obs_camera ob = calib_cams cfg j)
           (concat (map (camera_observations cfg cal f dets) [0..<n])) =
         (if j < n then camera_observations cfg cal f dets j else [])"
proof (induction n)
  case 0
  show ?case by simp
next
  case (Suc n)
  have n: "n < m" using Suc.prems by simp
  have same: "calib_cams cfg n = calib_cams cfg j \<longleftrightarrow> n = j"
    using assms n by (auto simp: inj_on_def)
  have last: "filter (\<lambda>ob. obs_camera ob = calib_cams cfg j)
                (camera_observations cfg cal f dets n) =
              (if n = j then camera_observations cfg cal f dets j else [])"
  proof (cases "n = j")
    case True
    then show ?thesis
      by (simp add: filter_id_conv camera_observations_handles)
  next
    case False
    then show ?thesis
      using same by (auto simp: filter_empty_conv dest: camera_observations_handles)
  qed
  show ?case
    using Suc.IH n last by (auto simp: less_Suc_eq)
qed

text \<open>
  C5: a camera whose tracking fails changes nothing but its own tracking flag: it adds no
  observation and writes no pose. What another camera \<open>j\<close> accumulates on the tick (the
  observations carrying its handle, the handles being distinct) and the pose estimate
  stored for it depend on the detection of camera \<open>j\<close> alone, and a tick never reads the
  flags left by earlier ticks, so later ticks are unaffected. With two cameras of which
  only camera \<open>a\<close> tracks on a committed tick, exactly one frame is appended, it holds the
  pose of camera \<open>a\<close>, and all observations added for it carry the handle of camera \<open>a\<close>.
\<close>

theorem failed_camera_contributes_nothing:
  "(\<not> tracking det \<longrightarrow>
      process_camera cfg cf iI det s = s\<lparr>tracking_good := (tracking_good s)(iI := False)\<rparr>) \<and>
   (inj_on (calib_cams cfg) {..<N cfg} \<and> j < N cfg \<longrightarrow>
      filter (\<lambda>ob. obs_camera ob = calib_cams cfg j) (observations (calibrator (tick cfg inp s))) =
      filter (\<lambda>ob. obs_camera ob = calib_cams cfg j) (observations (calibrator s)) @
        (if commits inp s \<and> tracking (detections inp j) \<and>
            0 \<le> calib_cams cfg j \<and> calib_cams cfg j < int (NumCameras (calibrator s))
         then blob_observations (grid_spacing cfg) (int (NumFrames (calibrator s)))
                (calib_cams cfg j) (blobs (detections inp j))
         else [])) \<and>
   T_hw (tick cfg inp s) j =
     (if j < N cfg \<and> tracking (detections inp j) then pose (detections inp j) else T_hw s j) \<and>
   tick cfg inp (s\<lparr>tracking_good := g\<rparr>) =
     (tick cfg inp s)
       \<lparr>tracking_good := (\<lambda>i. if i < N cfg then tracking (detections inp i) else g i)\<rparr> \<and>
   (N cfg = 2 \<and> commits inp s \<and> a < 2 \<and> b < 2 \<and> a \<noteq> b \<and>
    tracking (detections inp a) \<and> \<not> tracking (detections inp b) \<longrightarrow>
      frames (calibrator (tick cfg inp s)) = frames (calibrator s) @ [pose (detections inp a)] \<and>
      (\<exists>added.
         observations (calibrator (tick cfg inp s)) = observations (calibrator s) @ added \<and>
         (\<forall>ob \<in> set added. obs_camera ob = calib_cams cfg a \<and>
                            obs_frame ob = int (NumFrames (calibrator s))) \<and>
         (0 \<le> calib_cams cfg a \<and> calib_cams cfg a < int (NumCameras (calibrator s)) \<longrightarrow>
            added = blob_observations (grid_spacing cfg) (int (NumFrames (calibrator s)))
                      (calib_cams cfg a) (blobs (detections inp a)))))"
proof -
  let ?cal = "(calibrator s)\<lparr>frames := frames (calibrator s) @ [placeholder_pose]\<rparr>"
  let ?f = "int (length (frames (calibrator s)))"
  have A: "\<not> tracking det \<longrightarrow>
      process_camera cfg cf iI det s = s\<lparr>tracking_good := (tracking_good s)(iI := False)\<rparr>"
    by (simp add: process_camera_def)
  have B: "filter (\<lambda>ob. obs_camera ob = calib_cams cfg j) (observations (calibrator (tick cfg inp s))) =
      filter (\<lambda>ob. obs_camera ob = calib_cams cfg j) (observations (calibrator s)) @
        (if commits inp s \<and> tracking (detections inp j) \<and>
            0 \<le> calib_cams cfg j \<and> calib_cams cfg j < int (NumCameras (calibrator s))
         then blob_observations (grid_spacing cfg) (int (NumFrames (calibrator s)))
                (calib_cams cfg j) (blobs (detections inp j))
         else [])"
    if inj: "inj_on (calib_cams cfg) {..<N cfg}" and j: "j < N cfg"
  proof (cases "commits inp s")
    case False
    then show ?thesis by (simp add: tick_calibrator)
  next
    case True
    have en: "enabled (calibrator s)"
      using True by (simp add: commits_def)
    have "filter (\<lambda>ob. obs_camera ob = calib_cams cfg j)
            (concat (map (camera_observations cfg ?cal ?f (detections inp)) [0..<N cfg])) =
          camera_observations cfg ?cal ?f (detections inp) j"
      using filter_camera_observations [OF inj j, of "N cfg" ?cal ?f "detections inp"] j
      by simp
    then show ?thesis
      using True en
      by (simp add: tick_calibrator camera_observations_def takes_def NumCameras_def
          NumFrames_def)
  qed
  have C: "T_hw (tick cfg inp s) j =
     (if j < N cfg \<and> tracking (detections inp j) then pose (detections inp j) else T_hw s j)"
    by (simp add: tick_T_hw)
  have D: "tick cfg inp (s\<lparr>tracking_good := g\<rparr>) =
     (tick cfg inp s)
       \<lparr>tracking_good := (\<lambda>i. if i < N cfg then tracking (detections inp i) else g i)\<rparr>"
    by (auto simp: tick_def compute_go_eq grab_frame_eq camera_loop_eq goes_def fun_eq_iff)
  have E: "frames (calibrator (tick cfg inp s)) = frames (calibrator s) @ [pose (detections inp a)] \<and>
      (\<exists>added.
         observations (calibrator (tick cfg inp s)) = observations (calibrator s) @ added \<and>
         (\<forall>ob \<in> set added. obs_camera ob = calib_cams cfg a \<and>
                            obs_frame ob = int (NumFrames (calibrator s))) \<and>
         (0 \<le> calib_cams cfg a \<and> calib_cams cfg a < int (NumCameras (calibrator s)) \<longrightarrow>
            added = blob_observations (grid_spacing cfg) (int (NumFrames (calibrator s)))
                      (calib_cams cfg a) (blobs (detections inp a))))"
    if h: "N cfg = 2" "commits inp s" "a < 2" "b < 2" "a \<noteq> b"
      "tracking (detections inp a)" "\<not> tracking (detections inp b)"
  proof -
    have en: "enabled (calibrator s)"
      using h(2) by (simp add: commits_def)
    have ab: "(a = 0 \<and> b = 1) \<or> (a = 1 \<and> b = 0)"
      using h(3,4,5) by auto
    have two: "[0..<2] = [0, Suc 0]"
      by (simp add: upt_rec)
    have sp: "seeded_pose (detections inp) 2 placeholder_pose = pose (detections inp a)"
      using ab h(6,7) by (auto simp: eval_nat_numeral seeds_def)
    have obs: "concat (map (camera_observations cfg ?cal ?f (detections inp)) [0..<2]) =
                 camera_observations cfg ?cal ?f (detections inp) a"
      using ab h(6,7) by (auto simp: two camera_observations_def)
    have fr: "frames (calibrator (tick cfg inp s)) =
                frames (calibrator s) @ [pose (detections inp a)]"
      using h(1,2) sp by (simp add: tick_calibrator)
    have ob: "observations (calibrator (tick cfg inp s)) =
                observations (calibrator s) @ camera_observations cfg ?cal ?f (detections inp) a"
      using h(1,2) obs by (simp add: tick_calibrator)
    have hd: "\<forall>ob \<in> set (camera_observations cfg ?cal ?f (detections inp) a).
                obs_camera ob = calib_cams cfg a \<and> obs_frame ob = int (NumFrames (calibrator s))"
      by (auto simp: NumFrames_def dest: camera_observations_handles)
    have reg: "0 \<le> calib_cams cfg a \<and> calib_cams cfg a < int (NumCameras (calibrator s)) \<longrightarrow>
            camera_observations cfg ?cal ?f (detections inp) a =
              blob_observations (grid_spacing cfg) (int (NumFrames (calibrator s)))
                (calib_cams cfg a) (blobs (detections inp a))"
      using en h(6)
      by (simp add: camera_observations_def takes_def NumCameras_def NumFrames_def)
    from fr ob hd reg show ?thesis by blast
  qed
  from A B C D E show ?thesis by blast
qed

text \<open>Two cameras, camera 0 tracks the 3 by 3 corner and camera 1 loses the target.\<close>

theorem failed_camera_contributes_nothing_witness:
  "N (example_cfg 2) = 2 \<and> commits camera_A_only_input (example_start 2) \<and>
   tracking (detections camera_A_only_input 0) \<and> \<not> tracking (detections camera_A_only_input 1) \<and>
   frames (calibrator (tick (example_cfg 2) camera_A_only_input (example_start 2))) = [pose_A] \<and>
   length (observations (calibrator (tick (example_cfg 2) camera_A_only_input (example_start 2))))
     = 9 \<and>
   list_all (\<lambda>ob. obs_camera ob = 0 \<and> obs_frame ob = 0)
     (observations (calibrator (tick (example_cfg 2) camera_A_only_input (example_start 2))))"
proof -
  have n: "N (example_cfg 2) = 2"
    by (simp add: example_cfg_def)
  have c: "commits camera_A_only_input (example_start 2)"
    by (simp add: commits_def goes_def camera_A_only_input_def example_start_def
        initial_state_def)
  have t: "tracking (detections camera_A_only_input 0)"
    "\<not> tracking (detections camera_A_only_input 1)"
    by (simp_all add: camera_A_only_input_def tracked_def lost_def)
  have e: "observations (calibrator (example_start 2)) = []"
    "frames (calibrator (example_start 2)) = []"
    "NumFrames (calibrator (example_start 2)) = 0"
    "NumCameras (calibrator (example_start 2)) = 2"
    by (simp_all add: example_start_def initial_state_def NumFrames_def NumCameras_def)
  have h: "calib_cams (example_cfg 2) 0 = 0" "pose (detections camera_A_only_input 0) = pose_A"
    "length (blob_observations (grid_spacing (example_cfg 2)) 0 0
       (blobs (detections camera_A_only_input 0))) = 9"
    by (simp_all add: example_cfg_def camera_A_only_input_def tracked_def blob_observations_def
        grid_blobs_3x3_def in_grid_bounds)
  show ?thesis
    using n c t
      failed_camera_contributes_nothing [of lost "example_cfg 2" 0 1 "example_start 2" 0
        camera_A_only_input "tracking_good (example_start 2)" 0 1]
    by (auto simp: e h list_all_iff)
qed

subsection \<open>A single camera over consecutive ticks\<close>

lemma committed_run_nth:
  "committed_run cfg inps s \<Longrightarrow> k < length inps \<Longrightarrow>
     commits (inps ! k) (main_loop cfg (take k inps) s)"
proof (induction inps arbitrary: s k)
  case Nil
  then show ?case by simp
next
  case (Cons inp inps)
  show ?case
  proof (cases k)
    case 0
    with Cons.prems show ?thesis by simp
  next
    case (Suc k')
    with Cons.prems Cons.IH [of "iteration cfg inp s" k'] show ?thesis by simp
  qed
qed

lemma single_camera_tick:
  assumes "N cfg = 1"
    and "0 \<le> calib_cams cfg 0 \<and> calib_cams cfg 0 < int (length (cameras (calibrator s)))"
    and "commits inp s"
    and "tracking (detections inp 0)"
    and "\<forall>b \<in> set (blobs (detections inp 0)). in_grid (pg b)"
  shows "frames (calibrator (tick cfg inp s)) = frames (calibrator s) @ [pose (detections inp 0)]"
    and "length (observations (calibrator (tick cfg inp s))) =
           length (observations (calibrator s)) + length (blobs (detections inp 0))"
proof -
  have en: "enabled (calibrator s)"
    using assms(3) by (simp add: commits_def)
  have all: "filter (\<lambda>b. in_grid (pg b)) (blobs (detections inp 0)) = blobs (detections inp 0)"
    using assms(5) by (simp add: filter_id_conv)
  show "frames (calibrator (tick cfg inp s)) = frames (calibrator s) @ [pose (detections inp 0)]"
    using assms(1,3,4) by (simp add: tick_calibrator seeds_def)
  show "length (observations (calibrator (tick cfg inp s))) =
           length (observations (calibrator s)) + length (blobs (detections inp 0))"
    using assms(1,2,3,4) en
    by (simp add: tick_calibrator camera_observations_def takes_def blob_observations_def all)
qed

lemma single_camera_run:
  assumes "N cfg = 1" and "0 \<le> calib_cams cfg 0"
  shows "calib_cams cfg 0 < int (length (cameras (calibrator s))) \<Longrightarrow>
         committed_run cfg inps s \<Longrightarrow>
         \<forall>inp \<in> set inps. tracking (detections inp 0) \<and> length (blobs (detections inp 0)) = m \<and>
            (\<forall>b \<in> set (blobs (detections inp 0)). in_grid (pg b)) \<Longrightarrow>
         length (frames (calibrator (main_loop cfg inps s))) =
           length (frames (calibrator s)) + length inps \<and>
         length (observations (calibrator (main_loop cfg inps s))) =
           length (observations (calibrator s)) + m * length inps"
proof (induction inps arbitrary: s)
  case Nil
  show ?case by simp
next
  case (Cons inp inps)
  let ?s = "iteration cfg inp s"
  have c: "commits inp s" and r: "committed_run cfg inps ?s"
    using Cons.prems(2) by simp_all
  have reg: "0 \<le> calib_cams cfg 0 \<and> calib_cams cfg 0 < int (length (cameras (calibrator s)))"
    using assms(2) Cons.prems(1) by simp
  have t: "tracking (detections inp 0)" "length (blobs (detections inp 0)) = m"
    "\<forall>b \<in> set (blobs (detections inp 0)). in_grid (pg b)"
    using Cons.prems(3) by simp_all
  have f: "length (frames (calibrator ?s)) = length (frames (calibrator s)) + 1"
    using c by (simp add: iteration_NumFrames)
  have ob: "length (observations (calibrator ?s)) = length (observations (calibrator s)) + m"
    using single_camera_tick(2) [OF assms(1) reg c t(1) t(3)] t(2)
    by (simp add: iteration_observations)
  have "length (frames (calibrator (main_loop cfg inps ?s))) =
           length (frames (calibrator ?s)) + length inps \<and>
        length (observations (calibrator (main_loop cfg inps ?s))) =
           length (observations (calibrator ?s)) + m * length inps"
    using Cons.prems(1,3) r by (intro Cons.IH) (simp_all add: iteration_cameras)
  then show ?case
    using f ob by simp
qed

lemma committed_run_take:
  "committed_run cfg inps s \<Longrightarrow> committed_run cfg (take k inps) s"
proof (induction inps arbitrary: s k)
  case Nil
  then show ?case by simp
next
  case (Cons inp inps)
  then show ?case by (cases k) simp_all
qed

text \<open>
  C8: with exactly one registered camera, five consecutive committed ticks on each of
  which the camera tracks nine blobs, all matched inside the grid, create exactly 5 frames
  and 45 observations. The \<open>k\<close>-th of these ticks finds \<open>k\<close> more frames than the run
  started with and appends one frame holding the pose the camera estimated on that tick.
\<close>

theorem single_camera_five_ticks:
  assumes "N cfg = 1"
    and "0 \<le> calib_cams cfg 0 \<and> calib_cams cfg 0 < int (NumCameras (calibrator s))"
    and "committed_run cfg inps s"
    and "length inps = 5"
    and "\<forall>inp \<in> set inps. tracking (detections inp 0) \<and> length (blobs (detections inp 0)) = 9 \<and>
           (\<forall>b \<in> set (blobs (detections inp 0)). in_grid (pg b))"
  shows "NumFrames (calibrator (main_loop cfg inps s)) = NumFrames (calibrator s) + 5 \<and>
         length (observations (calibrator (main_loop cfg inps s))) =
           length (observations (calibrator s)) + 45 \<and>
         (\<forall>k < 5.
            NumFrames (calibrator (main_loop cfg (take k inps) s)) = NumFrames (calibrator s) + k \<and>
            frames (calibrator (tick cfg (inps ! k) (main_loop cfg (take k inps) s))) =
              frames (calibrator (main_loop cfg (take k inps) s)) @
                [pose (detections (inps ! k) 0)])"
proof -
  have reg: "0 \<le> calib_cams cfg 0" "calib_cams cfg 0 < int (length (cameras (calibrator s)))"
    using assms(2) by (simp_all add: NumCameras_def)
  have whole: "length (frames (calibrator (main_loop cfg inps s))) =
           length (frames (calibrator s)) + length inps \<and>
         length (observations (calibrator (main_loop cfg inps s))) =
           length (observations (calibrator s)) + 9 * length inps"
    by (rule single_camera_run [OF assms(1) reg(1) reg(2) assms(3) assms(5)])
  have each: "NumFrames (calibrator (main_loop cfg (take k inps) s)) = NumFrames (calibrator s) + k \<and>
            frames (calibrator (tick cfg (inps ! k) (main_loop cfg (take k inps) s))) =
              frames (calibrator (main_loop cfg (take k inps) s)) @
                [pose (detections (inps ! k) 0)]" if k: "k < 5" for k
  proof -
    let ?s = "main_loop cfg (take k inps) s"
    have kl: "k < length inps"
      using k assms(4) by simp
    have sub: "\<forall>inp \<in> set (take k inps). tracking (detections inp 0) \<and>
           length (blobs (detections inp 0)) = 9 \<and>
           (\<forall>b \<in> set (blobs (detections inp 0)). in_grid (pg b))"
      using assms(5) by (meson in_set_takeD)
    have "length (frames (calibrator ?s)) = length (frames (calibrator s)) + length (take k inps)"
      using single_camera_run [OF assms(1) reg(1) reg(2) committed_run_take [OF assms(3)] sub]
      by simp
    then have nf: "NumFrames (calibrator ?s) = NumFrames (calibrator s) + k"
      using kl by (simp add: NumFrames_def)
    have c: "commits (inps ! k) ?s"
      by (rule committed_run_nth [OF assms(3) kl])
    have mem: "inps ! k \<in> set inps"
      using kl by simp
    have regk: "0 \<le> calib_cams cfg 0 \<and> calib_cams cfg 0 < int (length (cameras (calibrator ?s)))"
      using reg by (simp add: main_loop_cameras)
    have "frames (calibrator (tick cfg (inps ! k) ?s)) =
            frames (calibrator ?s) @ [pose (detections (inps ! k) 0)]"
      using single_camera_tick(1) [OF assms(1) regk c] assms(5) mem by blast
    with nf show ?thesis by simp
  qed
  from whole each assms(4) show ?thesis
    by (simp add: NumFrames_def)
qed

lemma tick_enabled: "enabled (calibrator (tick cfg inp s)) = enabled (calibrator s)"
  by (simp add: tick_calibrator)

text \<open>
  One camera, five grabs of the 3 by 3 corner; the space bar pressed during the first
  iteration keeps the loop grabbing. The second tick appends the pose estimated on it.
\<close>

theorem single_camera_five_ticks_witness:
  "N (example_cfg 1) = 1 \<and>
   committed_run (example_cfg 1) five_ticks (example_start 1) \<and>
   length five_ticks = 5 \<and>
   NumFrames (calibrator (main_loop (example_cfg 1) five_ticks (example_start 1))) = 5 \<and>
   length (observations (calibrator (main_loop (example_cfg 1) five_ticks (example_start 1))))
     = 45 \<and>
   frames (calibrator (tick (example_cfg 1) (five_ticks ! 1)
             (main_loop (example_cfg 1) (take 1 five_ticks) (example_start 1)))) =
     frames (calibrator (main_loop (example_cfg 1) (take 1 five_ticks) (example_start 1))) @
       [pose_B]"
proof -
  have n: "N (example_cfg 1) = 1"
    by (simp add: example_cfg_def)
  have reg: "0 \<le> calib_cams (example_cfg 1) 0 \<and>
      calib_cams (example_cfg 1) 0 < int (NumCameras (calibrator (example_start 1)))"
    by (simp add: example_cfg_def example_start_def initial_state_def NumCameras_def)
  have run: "committed_run (example_cfg 1) five_ticks (example_start 1)"
    by (simp add: five_ticks_def tracking_input_def commits_def goes_def iteration_def
        FinishFrame_def tick_run tick_frame tick_add tick_step tick_enabled
        example_start_def initial_state_def)
  have len: "length five_ticks = 5"
    by (simp add: five_ticks_def)
  have det: "\<forall>inp \<in> set five_ticks. tracking (detections inp 0) \<and>
      length (blobs (detections inp 0)) = 9 \<and>
      (\<forall>b \<in> set (blobs (detections inp 0)). in_grid (pg b))"
    by (simp add: five_ticks_def tracking_input_def tracked_def grid_blobs_3x3_def
        in_grid_bounds)
  have e: "NumFrames (calibrator (example_start 1)) = 0"
    "observations (calibrator (example_start 1)) = []"
    by (simp_all add: example_start_def initial_state_def NumFrames_def)
  have p: "pose (detections (five_ticks ! 1) 0) = pose_B"
    by (simp add: five_ticks_def tracking_input_def tracked_def)
  show ?thesis
    using n run len single_camera_five_ticks [OF n reg run len det] e p
    by auto
qed

end
